theory Spec2Isabelle
  imports Main "HOL-Library.Char_ord" "HOL-Library.List_Lexorder"
begin

section \<open>The history database of \<^verbatim>\<open>sql_helper.py\<close>\<close>

text \<open>
  The class \<^verbatim>\<open>SQLHelper\<close> keeps one SQLite connection and issues fixed SQL
  statements against five tables. The embedding has three layers: the tables and the
  meaning of each statement, the connection object (cursor, commit, close) as a state
  with exceptions, and the methods of the class written over these in the order of the
  source.
\<close>

subsection \<open>Rows and tables\<close>

text \<open>
  One row of \<^verbatim>\<open>media\<close>, columns in the order of the \<^verbatim>\<open>CREATE TABLE\<close>
  statement. The seven text columns hold Python \<^verbatim>\<open>str\<close> values, \<^verbatim>\<open>completed\<close>
  a Python \<^verbatim>\<open>int\<close>.
\<close>

record media_row =
  domain :: string
  url_path :: string
  album_path :: string
  referer :: string
  download_path :: string
  download_filename :: string
  original_filename :: string
  completed :: int

text \<open>
  The V3 table \<^verbatim>\<open>downloads\<close> is only read, and only through its columns
  \<^verbatim>\<open>path\<close> and \<^verbatim>\<open>completed\<close>.
\<close>

record legacy_row =
  legacy_path :: string
  legacy_completed :: int

text \<open>
  A database file: each table is absent (\<open>None\<close>) or holds its rows in storage order.
  \<^verbatim>\<open>coomeno\<close> rows are pairs of \<^verbatim>\<open>url_path\<close> and \<^verbatim>\<open>post_data\<close>;
  a row of the scratch table \<^verbatim>\<open>t\<close> is represented by the length of its zero blob.
\<close>

record database =
  downloads :: "legacy_row list option"
  media :: "media_row list option"
  downloads_temp :: "string list option"
  coomeno :: "(string \<times> string) list option"
  t_table :: "nat list option"

definition empty_database :: database where
  "empty_database =
     \<lparr>downloads = None, media = None, downloads_temp = None, coomeno = None, t_table = None\<rparr>"

text \<open>
  A value as the cursor hands it back to Python: an \<^verbatim>\<open>int\<close>, a \<^verbatim>\<open>str\<close>, or
  the \<^verbatim>\<open>bytes\<close> of a blob.
\<close>

datatype sqlval = SInt int | SText string | SBlob string

subsection \<open>Statements\<close>

text \<open>
  Every SQL text of the source is one constructor; the \<^verbatim>\<open>?\<close> parameters are its
  arguments, in the order of the parameter tuple.
\<close>

datatype stmt =
    SelectSchemaDownloads
  | CreateMedia
  | CreateDownloadsTemp
  | DeleteDownloadsTemp
  | CreateCoomeno
  | CreateT
  | InsertZeroblob nat
  | DropT
  | PragmaFreelistCount
  | SelectTempNames
  | InsertTemp string
  | InsertCoomeno string string
  | SelectPostData string
  | InsertMedia media_row
  | SelectDownloadFilename string string
  | SelectLegacyCompleted string
  | SelectCompleted string string
  | SelectExistsFilename string
  | UpdatePreDownload string string string string
  | UpdateCompleted string string

datatype exn = AttributeError | TypeError | OverflowError | ProgrammingError | OperationalError

text \<open>
  The primary key of \<^verbatim>\<open>media\<close> is \<^verbatim>\<open>(url_path, original_filename)\<close>, that of
  \<^verbatim>\<open>coomeno\<close> is \<^verbatim>\<open>url_path\<close>; \<^verbatim>\<open>downloads_temp\<close> declares no key.
  \<^verbatim>\<open>INSERT OR IGNORE\<close> skips a row whose key is already stored and appends it otherwise.
\<close>

definition media_key :: "media_row \<Rightarrow> string \<times> string" where
  "media_key r = (url_path r, original_filename r)"

definition insert_or_ignore_media :: "media_row \<Rightarrow> media_row list \<Rightarrow> media_row list" where
  "insert_or_ignore_media r rows =
     (if media_key r \<in> set (map media_key rows) then rows else rows @ [r])"

definition insert_or_ignore_coomeno ::
  "string \<times> string \<Rightarrow> (string \<times> string) list \<Rightarrow> (string \<times> string) list" where
  "insert_or_ignore_coomeno r rows =
     (if fst r \<in> set (map fst rows) then rows else rows @ [r])"

text \<open>SQLite stores an integer in 64 bits; binding a larger Python \<^verbatim>\<open>int\<close> raises.\<close>

definition int64_ok :: "int \<Rightarrow> bool" where
  "int64_ok n \<longleftrightarrow> - (2 ^ 63) \<le> n \<and> n < 2 ^ 63"

definition set_download :: "string \<Rightarrow> string \<Rightarrow> string \<Rightarrow> string \<Rightarrow> media_row \<Rightarrow> media_row" where
  "set_download dp fn u f r =
     (if url_path r = u \<and> original_filename r = f
      then r\<lparr>download_path := dp, download_filename := fn\<rparr> else r)"

definition set_completed :: "string \<Rightarrow> string \<Rightarrow> media_row \<Rightarrow> media_row" where
  "set_completed u f r =
     (if url_path r = u \<and> original_filename r = f then r\<lparr>completed := 1\<rparr> else r)"

text \<open>
  The effect of a statement on the database. A statement on a table that does not exist
  fails with \<^verbatim>\<open>OperationalError\<close> (no such table); \<^verbatim>\<open>CREATE TABLE IF NOT EXISTS\<close>
  leaves an existing table alone.
\<close>

fun stmt_effect :: "stmt \<Rightarrow> database \<Rightarrow> exn + database" where
  "stmt_effect SelectSchemaDownloads d = Inr d"
| "stmt_effect CreateMedia d =
     Inr (case media d of None \<Rightarrow> d\<lparr>media := Some []\<rparr> | Some _ \<Rightarrow> d)"
| "stmt_effect CreateDownloadsTemp d =
     Inr (case downloads_temp d of None \<Rightarrow> d\<lparr>downloads_temp := Some []\<rparr> | Some _ \<Rightarrow> d)"
| "stmt_effect DeleteDownloadsTemp d =
     (case downloads_temp d of None \<Rightarrow> Inl OperationalError
      | Some _ \<Rightarrow> Inr (d\<lparr>downloads_temp := Some []\<rparr>))"
| "stmt_effect CreateCoomeno d =
     Inr (case coomeno d of None \<Rightarrow> d\<lparr>coomeno := Some []\<rparr> | Some _ \<Rightarrow> d)"
| "stmt_effect CreateT d =
     Inr (case t_table d of None \<Rightarrow> d\<lparr>t_table := Some []\<rparr> | Some _ \<Rightarrow> d)"
| "stmt_effect (InsertZeroblob n) d =
     (case t_table d of None \<Rightarrow> Inl OperationalError
      | Some rows \<Rightarrow> Inr (d\<lparr>t_table := Some (rows @ [n])\<rparr>))"
| "stmt_effect DropT d =
     (case t_table d of None \<Rightarrow> Inl OperationalError
      | Some _ \<Rightarrow> Inr (d\<lparr>t_table := None\<rparr>))"
| "stmt_effect PragmaFreelistCount d = Inr d"
| "stmt_effect SelectTempNames d =
     (case downloads_temp d of None \<Rightarrow> Inl OperationalError | Some _ \<Rightarrow> Inr d)"
| "stmt_effect (InsertTemp name) d =
     (case downloads_temp d of None \<Rightarrow> Inl OperationalError
      | Some rows \<Rightarrow> Inr (d\<lparr>downloads_temp := Some (rows @ [name])\<rparr>))"
| "stmt_effect (InsertCoomeno u b) d =
     (case coomeno d of None \<Rightarrow> Inl OperationalError
      | Some rows \<Rightarrow> Inr (d\<lparr>coomeno := Some (insert_or_ignore_coomeno (u, b) rows)\<rparr>))"
| "stmt_effect (SelectPostData u) d =
     (case coomeno d of None \<Rightarrow> Inl OperationalError | Some _ \<Rightarrow> Inr d)"
| "stmt_effect (InsertMedia r) d =
     (case media d of None \<Rightarrow> Inl OperationalError
      | Some rows \<Rightarrow>
          if int64_ok (completed r)
          then Inr (d\<lparr>media := Some (insert_or_ignore_media r rows)\<rparr>)
          else Inl OverflowError)"
| "stmt_effect (SelectDownloadFilename u f) d =
     (case media d of None \<Rightarrow> Inl OperationalError | Some _ \<Rightarrow> Inr d)"
| "stmt_effect (SelectLegacyCompleted p) d =
     (case downloads d of None \<Rightarrow> Inl OperationalError | Some _ \<Rightarrow> Inr d)"
| "stmt_effect (SelectCompleted dm u) d =
     (case media d of None \<Rightarrow> Inl OperationalError | Some _ \<Rightarrow> Inr d)"
| "stmt_effect (SelectExistsFilename fn) d =
     (case media d of None \<Rightarrow> Inl OperationalError | Some _ \<Rightarrow> Inr d)"
| "stmt_effect (UpdatePreDownload dp fn u f) d =
     (case media d of None \<Rightarrow> Inl OperationalError
      | Some rows \<Rightarrow> Inr (d\<lparr>media := Some (map (set_download dp fn u f) rows)\<rparr>))"
| "stmt_effect (UpdateCompleted u f) d =
     (case media d of None \<Rightarrow> Inl OperationalError
      | Some rows \<Rightarrow> Inr (d\<lparr>media := Some (map (set_completed u f) rows)\<rparr>))"

definition rows_of :: "'a list option \<Rightarrow> 'a list" where
  "rows_of tbl = (case tbl of None \<Rightarrow> [] | Some rows \<Rightarrow> rows)"

text \<open>
  The result rows of a statement. Every \<^verbatim>\<open>SELECT\<close> of the source names one column,
  so a result row is the single value of that column. The order of the rows is the one
  SQLite produces. The lookups by the whole key of \<^verbatim>\<open>media\<close> or \<^verbatim>\<open>coomeno\<close> match
  at most one row of a table that respects its primary key. \<^verbatim>\<open>downloads_temp\<close> has no
  index and is scanned in storage order, and so is the V3 table, whose keys the source
  does not show. The completion lookup fixes \<^verbatim>\<open>url_path\<close>, the leading column of the
  primary key \<^verbatim>\<open>(url_path, original_filename)\<close> of \<^verbatim>\<open>media\<close>, so it is answered
  through the index of that key: the rows with that URL path come in the order of their
  \<^verbatim>\<open>original_filename\<close>, compared byte by byte, and those of another domain are
  skipped. The free-page count is what the storage engine reports, passed in as
  \<open>free\<close>.
\<close>

fun stmt_rows :: "int \<Rightarrow> stmt \<Rightarrow> database \<Rightarrow> sqlval list" where
  "stmt_rows free SelectSchemaDownloads d =
     (case downloads d of None \<Rightarrow> [] | Some _ \<Rightarrow> [SText ''downloads''])"
| "stmt_rows free PragmaFreelistCount d = [SInt free]"
| "stmt_rows free SelectTempNames d = map SText (rows_of (downloads_temp d))"
| "stmt_rows free (SelectPostData u) d =
     map (\<lambda>r. SBlob (snd r)) (filter (\<lambda>r. fst r = u) (rows_of (coomeno d)))"
| "stmt_rows free (SelectDownloadFilename u f) d =
     map (\<lambda>r. SText (download_filename r))
       (filter (\<lambda>r. url_path r = u \<and> original_filename r = f) (rows_of (media d)))"
| "stmt_rows free (SelectLegacyCompleted p) d =
     map (\<lambda>r. SInt (legacy_completed r))
       (filter (\<lambda>r. legacy_path r = p) (rows_of (downloads d)))"
| "stmt_rows free (SelectCompleted dm u) d =
     map (\<lambda>r. SInt (completed r))
       (filter (\<lambda>r. domain r = dm)
          (sort_key original_filename (filter (\<lambda>r. url_path r = u) (rows_of (media d)))))"
| "stmt_rows free (SelectExistsFilename fn) d =
     [SInt (if \<exists>r \<in> set (rows_of (media d)). download_filename r = fn then 1 else 0)]"
| "stmt_rows free _ d = []"

subsection \<open>The helper object and its connection\<close>

datatype conn_status = Open | Closed

datatype log_entry = FailedToClose exn | ClosedSuccessfully

text \<open>
  The fields of \<^verbatim>\<open>SQLHelper\<close>. \<^verbatim>\<open>self.conn\<close> and \<^verbatim>\<open>self.curs\<close> are
  \<^verbatim>\<open>None\<close> until \<^verbatim>\<open>sql_initialize\<close> sets both, so one field \<open>conn\<close> stands for the
  pair. \<open>view\<close> is the database as the connection sees it, \<open>durable\<close> the file as last
  committed, \<open>results\<close> the rows still waiting on the cursor, \<open>executed\<close> the statements
  given to \<^verbatim>\<open>curs.execute\<close> so far, \<open>debug_log\<close> the messages of the exit handler.
  Two fields are inputs from the storage engine that the model does not compute:
  \<open>freelist_count\<close>, the answer to \<^verbatim>\<open>PRAGMA freelist_count\<close>, and \<open>io_fail\<close>, whether
  a commit fails (disk full, I/O error).
\<close>

record SQLHelper =
  ignore_history :: bool
  ignore_cache :: bool
  download_history :: string
  conn :: "conn_status option"
  old_history :: bool
  view :: database
  durable :: database
  results :: "sqlval list"
  executed :: "stmt list"
  debug_log :: "log_entry list"
  freelist_count :: int
  io_fail :: bool

text \<open>
  A method runs on the object and either returns a value or raises; the object keeps
  whatever was done to it before the exception.
\<close>

type_synonym 'a action = "SQLHelper \<Rightarrow> (exn + 'a) \<times> SQLHelper"

definition ret :: "'a \<Rightarrow> 'a action" where
  "ret x s = (Inr x, s)"

definition raise :: "exn \<Rightarrow> 'a action" where
  "raise e s = (Inl e, s)"

definition bnd :: "'a action \<Rightarrow> ('a \<Rightarrow> 'b action) \<Rightarrow> 'b action" where
  "bnd m f s = (case m s of (Inl e, s1) \<Rightarrow> (Inl e, s1) | (Inr x, s1) \<Rightarrow> f x s1)"

text \<open>\<^verbatim>\<open>SQLHelper.__init__\<close>, on a database file with the given content.\<close>

definition init_SQLHelper :: "bool \<Rightarrow> bool \<Rightarrow> string \<Rightarrow> database \<Rightarrow> int \<Rightarrow> SQLHelper" where
  "init_SQLHelper ih ic file content free =
     \<lparr>ignore_history = ih, ignore_cache = ic, download_history = file, conn = None,
      old_history = False, view = content, durable = content, results = [], executed = [],
      debug_log = [], freelist_count = free, io_fail = False\<rparr>"

text \<open>
  \<^verbatim>\<open>sqlite3.connect\<close>, for a file that can be opened: a fresh connection sees the
  committed file; what an earlier connection had not committed is gone.
\<close>

definition connect :: "unit action" where
  "connect s = (Inr (), s\<lparr>conn := Some Open, view := durable s, results := []\<rparr>)"

text \<open>
  \<^verbatim>\<open>self.curs.execute(q, params)\<close>: \<^verbatim>\<open>AttributeError\<close> on \<^verbatim>\<open>None\<close>,
  \<^verbatim>\<open>ProgrammingError\<close> on a closed connection, otherwise the statement runs, its
  rows wait on the cursor and it is recorded as executed.
\<close>

definition curs_execute :: "stmt \<Rightarrow> unit action" where
  "curs_execute q s =
     (case conn s of
        None \<Rightarrow> (Inl AttributeError, s)
      | Some Closed \<Rightarrow> (Inl ProgrammingError, s)
      | Some Open \<Rightarrow>
          (case stmt_effect q (view s) of
             Inl e \<Rightarrow> (Inl e, s)
           | Inr d \<Rightarrow>
               (Inr (), s\<lparr>view := d, results := stmt_rows (freelist_count s) q (view s),
                          executed := executed s @ [q]\<rparr>)))"

definition fetchone :: "sqlval option action" where
  "fetchone s =
     (case conn s of
        None \<Rightarrow> (Inl AttributeError, s)
      | Some Closed \<Rightarrow> (Inl ProgrammingError, s)
      | Some Open \<Rightarrow>
          (case results s of
             [] \<Rightarrow> (Inr None, s)
           | v # vs \<Rightarrow> (Inr (Some v), s\<lparr>results := vs\<rparr>)))"

definition fetchall :: "sqlval list action" where
  "fetchall s =
     (case conn s of
        None \<Rightarrow> (Inl AttributeError, s)
      | Some Closed \<Rightarrow> (Inl ProgrammingError, s)
      | Some Open \<Rightarrow> (Inr (results s), s\<lparr>results := []\<rparr>))"

definition conn_commit :: "unit action" where
  "conn_commit s =
     (case conn s of
        None \<Rightarrow> (Inl AttributeError, s)
      | Some Closed \<Rightarrow> (Inl ProgrammingError, s)
      | Some Open \<Rightarrow>
          if io_fail s then (Inl OperationalError, s) else (Inr (), s\<lparr>durable := view s\<rparr>))"

text \<open>Closing rolls back what is not committed; closing a closed connection does nothing.\<close>

definition conn_close :: "unit action" where
  "conn_close s =
     (case conn s of
        None \<Rightarrow> (Inl AttributeError, s)
      | Some Closed \<Rightarrow> (Inr (), s)
      | Some Open \<Rightarrow> (Inr (), s\<lparr>conn := Some Closed, view := durable s, results := []\<rparr>))"

subsection \<open>Start-up\<close>

definition check_old_history :: "unit action" where
  "check_old_history =
     bnd (curs_execute SelectSchemaDownloads) (\<lambda>_.
     bnd fetchone (\<lambda>sql_file_check.
       case sql_file_check of
         Some _ \<Rightarrow> (\<lambda>s. (Inr (), s\<lparr>old_history := True\<rparr>))
       | None \<Rightarrow> ret ()))"

definition create_media_history :: "unit action" where
  "create_media_history =
     bnd (curs_execute CreateMedia) (\<lambda>_.
     bnd conn_commit (\<lambda>_.
     bnd (curs_execute CreateDownloadsTemp) (\<lambda>_.
     bnd conn_commit (\<lambda>_.
     bnd (curs_execute DeleteDownloadsTemp) (\<lambda>_.
     conn_commit)))))"

definition create_coomeno_history :: "unit action" where
  "create_coomeno_history =
     bnd (curs_execute CreateCoomeno) (\<lambda>_. conn_commit)"

text \<open>
  \<^verbatim>\<open>free = self.curs.fetchone()[0]\<close> and \<^verbatim>\<open>free <= 1024\<close>: subscripting
  \<^verbatim>\<open>None\<close> and comparing a \<^verbatim>\<open>str\<close> with an \<^verbatim>\<open>int\<close> are both a
  \<^verbatim>\<open>TypeError\<close>.
\<close>

definition pre_allocate :: "unit action" where
  "pre_allocate =
     bnd (curs_execute PragmaFreelistCount) (\<lambda>_.
     bnd fetchone (\<lambda>row.
       case row of
         None \<Rightarrow> raise TypeError
       | Some (SText _) \<Rightarrow> raise TypeError
       | Some (SBlob _) \<Rightarrow> raise TypeError
       | Some (SInt free) \<Rightarrow>
           if free \<le> 1024 then
             bnd (curs_execute CreateT) (\<lambda>_.
             bnd conn_commit (\<lambda>_.
             bnd (curs_execute (InsertZeroblob (50 * 1024 * 1024))) (\<lambda>_.
             bnd conn_commit (\<lambda>_.
             bnd (curs_execute DropT) (\<lambda>_.
             conn_commit)))))
           else ret ()))"

definition sql_initialize :: "unit action" where
  "sql_initialize =
     bnd connect (\<lambda>_.
     bnd check_old_history (\<lambda>_.
     bnd pre_allocate (\<lambda>_.
     bnd create_media_history (\<lambda>_.
     create_coomeno_history))))"

subsection \<open>Temp table operations\<close>

text \<open>
  \<^verbatim>\<open>list(sum(filenames, ()))\<close> concatenates the one-column rows, which is the list of
  their values.
\<close>

definition get_temp_names :: "sqlval list action" where
  "get_temp_names = bnd (curs_execute SelectTempNames) (\<lambda>_. fetchall)"

definition sql_insert_temp :: "string \<Rightarrow> unit action" where
  "sql_insert_temp downloaded_filename =
     bnd (curs_execute (InsertTemp downloaded_filename)) (\<lambda>_. conn_commit)"

subsection \<open>Coomeno table operations\<close>

definition insert_blob :: "string \<Rightarrow> string \<Rightarrow> unit action" where
  "insert_blob blob u = bnd (curs_execute (InsertCoomeno u blob)) (\<lambda>_. conn_commit)"

text \<open>A fetched row is a non-empty tuple, which Python takes as true.\<close>

definition get_blob :: "string \<Rightarrow> sqlval option action" where
  "get_blob u =
     (\<lambda>s. if ignore_cache s then ret None s
          else bnd (curs_execute (SelectPostData u)) (\<lambda>_.
               bnd fetchone (\<lambda>sql_file_check.
                 case sql_file_check of Some v \<Rightarrow> ret (Some v) | None \<Rightarrow> ret None)) s)"

subsection \<open>Download table operations\<close>

definition insert_media :: "media_row \<Rightarrow> unit action" where
  "insert_media r = bnd (curs_execute (InsertMedia r)) (\<lambda>_. conn_commit)"
















definition get_downloaded_filename :: "string \<Rightarrow> string \<Rightarrow> sqlval option action" where
  "get_downloaded_filename u filename =
     bnd (curs_execute (SelectDownloadFilename u filename)) (\<lambda>_.
     bnd fetchone (\<lambda>sql_file_check.
       case sql_file_check of Some v \<Rightarrow> ret (Some v) | None \<Rightarrow> ret None))"

text \<open>
  \<^verbatim>\<open>return sql_file_check and sql_file_check[0] == 1\<close> gives \<^verbatim>\<open>None\<close>, not
  \<^verbatim>\<open>False\<close>, when no row was fetched; the result is \<open>None\<close> then.
\<close>

definition sql_check_old_existing :: "string \<Rightarrow> bool option action" where
  "sql_check_old_existing u =
     (\<lambda>s. if \<not> old_history s then ret (Some False) s
          else if ignore_history s then ret (Some False) s
          else bnd (curs_execute (SelectLegacyCompleted u)) (\<lambda>_.
               bnd fetchone (\<lambda>sql_file_check.
                 case sql_file_check of
                   None \<Rightarrow> ret None
                 | Some v \<Rightarrow> ret (Some (v = SInt 1)))) s)"

definition check_complete_singular :: "string \<Rightarrow> string \<Rightarrow> bool action" where
  "check_complete_singular dm u =
     (\<lambda>s. if ignore_history s then ret False s
          else bnd (curs_execute (SelectCompleted dm u)) (\<lambda>_.
               bnd fetchone (\<lambda>sql_file_check.
                 case sql_file_check of
                   None \<Rightarrow> ret False
                 | Some v \<Rightarrow> if v = SInt 0 then ret False else ret True)) s)"

subsection \<open>Downloader operations\<close>


definition update_pre_download :: "string \<Rightarrow> string \<Rightarrow> string \<Rightarrow> string \<Rightarrow> unit action" where
  "update_pre_download dp filename u orig =
     bnd (curs_execute (UpdatePreDownload dp filename u orig)) (\<lambda>_. conn_commit)"

definition mark_complete :: "string \<Rightarrow> string \<Rightarrow> unit action" where
  "mark_complete u orig = bnd (curs_execute (UpdateCompleted u orig)) (\<lambda>_. conn_commit)"

text \<open>
  \<^verbatim>\<open>try: commit; close\<close> with \<^verbatim>\<open>except Exception\<close>: every exception of the
  model is a subclass of \<^verbatim>\<open>Exception\<close>, so the handler takes each of them.
\<close>

definition is_Exception :: "exn \<Rightarrow> bool" where
  "is_Exception e = True"

definition exit_handler :: "unit action" where
  "exit_handler s =
     (case bnd conn_commit (\<lambda>_. conn_close) s of
        (Inl e, s1) \<Rightarrow>
          if is_Exception e then (Inr (), s1\<lparr>debug_log := debug_log s1 @ [FailedToClose e]\<rparr>)
          else (Inl e, s1)
      | (Inr _, s1) \<Rightarrow> (Inr (), s1\<lparr>debug_log := debug_log s1 @ [ClosedSuccessfully]\<rparr>))"

subsection \<open>Sequences of operations\<close>





subsection \<open>Concrete inputs\<close>

text \<open>
  A helper on a new, empty file after \<^verbatim>\<open>sql_initialize\<close>, and the record of the
  end-to-end scenario.
\<close>

definition started :: "bool \<Rightarrow> bool \<Rightarrow> SQLHelper" where
  "started ih ic =
     snd (sql_initialize (init_SQLHelper ih ic ''history.sqlite'' empty_database 0))"

definition example_record :: "int \<Rightarrow> media_row" where
  "example_record c =
     \<lparr>domain = ''example'', url_path = ''/a'', album_path = ''alb'', referer = ''http://x'',
      download_path = [], download_filename = [], original_filename = ''a.jpg'',
      completed = c\<rparr>"

text \<open>
  The end-to-end scenario up to completion: insert the record, set its download target,
  mark it complete.
\<close>

definition scenario_done :: "bool \<Rightarrow> SQLHelper" where
  "scenario_done ih =
     snd (mark_complete ''/a'' ''a.jpg''
       (snd (update_pre_download ''/downloads'' ''a_1.jpg'' ''/a'' ''a.jpg''
         (snd (insert_media (example_record 0) (started ih False))))))"



section \<open>Properties\<close>

subsection \<open>Evaluation rules\<close>

lemmas act_defs = ret_def raise_def bnd_def curs_execute_def fetchone_def fetchall_def
  conn_commit_def conn_close_def connect_def

lemma started_eq:
  "started ih ic =
     \<lparr>ignore_history = ih, ignore_cache = ic, download_history = ''history.sqlite'',
      conn = Some Open, old_history = False,
      view = \<lparr>downloads = None, media = Some [], downloads_temp = Some [],
               coomeno = Some [], t_table = None\<rparr>,
      durable = \<lparr>downloads = None, media = Some [], downloads_temp = Some [],
               coomeno = Some [], t_table = None\<rparr>,
      results = [],
      executed = [SelectSchemaDownloads, PragmaFreelistCount, CreateT,
                  InsertZeroblob 52428800, DropT, CreateMedia, CreateDownloadsTemp,
                  DeleteDownloadsTemp, CreateCoomeno],
      debug_log = [], freelist_count = 0, io_fail = False\<rparr>"
  by (simp add: started_def sql_initialize_def check_old_history_def pre_allocate_def
      create_media_history_def create_coomeno_history_def init_SQLHelper_def
      empty_database_def act_defs)

subsection \<open>First rows and single statements\<close>

lemma find_filter_Nil: "filter P xs = [] \<Longrightarrow> find P xs = None"
  by (induction xs) (auto split: if_splits)

lemma find_filter_Cons: "filter P xs = y # ys \<Longrightarrow> find P xs = Some y"
  by (induction xs) (auto split: if_splits)

lemma find_append_fresh: "\<forall>x \<in> set xs. \<not> P x \<Longrightarrow> find P (xs @ ys) = find P ys"
  by (induction xs) auto

lemma find_map_row:
  assumes "\<And>x. P (g x) = P x"
  shows "find P (map g xs) = map_option g (find P xs)"
  using assms by (induction xs) auto

lemma get_downloaded_filename_open:
  assumes "conn s = Some Open" and "media (view s) = Some rows"
  shows "fst (get_downloaded_filename u f s) =
           Inr (map_option (\<lambda>r. SText (download_filename r))
                  (find (\<lambda>r. url_path r = u \<and> original_filename r = f) rows))"
proof (cases "filter (\<lambda>r. url_path r = u \<and> original_filename r = f) rows")
  case Nil
  then show ?thesis
    using assms find_filter_Nil [OF Nil]
    by (simp add: get_downloaded_filename_def act_defs rows_of_def)
next
  case (Cons y ys)
  then show ?thesis
    using assms find_filter_Cons [OF Cons]
    by (simp add: get_downloaded_filename_def act_defs rows_of_def)
qed

lemma completion_lookup_order:
  "filter (\<lambda>r. domain r = dm)
     (sort_key original_filename (filter (\<lambda>r. url_path r = u) rows)) =
   sort_key original_filename (filter (\<lambda>r. domain r = dm \<and> url_path r = u) rows)"
proof -
  have "filter (\<lambda>r. domain r = dm) (filter (\<lambda>r. url_path r = u) rows) =
          filter (\<lambda>r. domain r = dm \<and> url_path r = u) rows"
    by (induction rows) auto
  then show ?thesis
    by (simp only: filter_sort)
qed

lemma check_complete_singular_open:
  assumes "\<not> ignore_history s" and "conn s = Some Open" and "media (view s) = Some rows"
  shows "fst (check_complete_singular dm u s) =
           Inr (case sort_key original_filename
                       (filter (\<lambda>r. domain r = dm \<and> url_path r = u) rows) of
                  [] \<Rightarrow> False | r # _ \<Rightarrow> completed r \<noteq> 0)"
proof -
  let ?L = "sort_key original_filename (filter (\<lambda>r. domain r = dm \<and> url_path r = u) rows)"
  have rows: "stmt_rows (freelist_count s) (SelectCompleted dm u) (view s) =
                map (\<lambda>r. SInt (completed r)) ?L"
    using assms(3) by (simp add: rows_of_def completion_lookup_order)
  show ?thesis
  proof (cases ?L)
    case Nil
    then show ?thesis
      using assms rows
      by (simp add: check_complete_singular_def act_defs)
  next
    case (Cons y ys)
    then show ?thesis
      using assms rows
      by (simp add: check_complete_singular_def act_defs)
  qed
qed


lemma first_row_least:
  assumes "sort_key g xs = y # ys" and "x \<in> set xs"
  shows "g y \<le> g x"
proof -
  have "sorted (map g (y # ys))"
    using sorted_sort_key [of g xs] assms(1) by simp
  moreover have "x \<in> set (y # ys)"
    using assms set_sort [of g xs] by simp
  ultimately show ?thesis
    by auto
qed

lemma distinct_key_eq:
  assumes "distinct (map g xs)" and "x \<in> set xs" and "y \<in> set xs" and "g x = g y"
  shows "x = y"
  using assms by (meson distinct_map inj_onD)

lemma insert_media_open:
  assumes "conn s = Some Open" and "media (view s) = Some rows" and "int64_ok (completed r)"
  shows "conn (snd (insert_media r s)) = Some Open"
    and "view (snd (insert_media r s)) = (view s)\<lparr>media := Some (insert_or_ignore_media r rows)\<rparr>"
    and "ignore_history (snd (insert_media r s)) = ignore_history s"
  using assms by (simp_all add: insert_media_def act_defs)

lemma update_pre_download_open:
  assumes "conn s = Some Open" and "media (view s) = Some rows"
  shows "conn (snd (update_pre_download dp fn u f s)) = Some Open"
    and "view (snd (update_pre_download dp fn u f s)) =
           (view s)\<lparr>media := Some (map (set_download dp fn u f) rows)\<rparr>"
    and "ignore_history (snd (update_pre_download dp fn u f s)) = ignore_history s"
  using assms by (simp_all add: update_pre_download_def act_defs)


subsection \<open>Temp names\<close>

text \<open>
  C3. Claiming a name a second time is meant to change nothing, so that the list of
  claimed names holds each name once. The table \<^verbatim>\<open>downloads_temp\<close> declares no key,
  so \<^verbatim>\<open>INSERT OR IGNORE\<close> has nothing to conflict with: on a newly initialised
  helper, claiming \<^verbatim>\<open>a.jpg\<close> twice makes \<^verbatim>\<open>get_temp_names\<close> return it twice.
\<close>

theorem temp_names_claimed_twice:
  "fst (get_temp_names (snd (sql_insert_temp ''a.jpg''
          (snd (sql_insert_temp ''a.jpg'' (started False False)))))) =
     Inr [SText ''a.jpg'', SText ''a.jpg'']"
  by (simp add: started_eq get_temp_names_def sql_insert_temp_def act_defs rows_of_def)

subsection \<open>Looking up the downloaded filename\<close>

text \<open>
  C1, as stated: after a record is inserted with empty \<^verbatim>\<open>download_path\<close> and
  \<^verbatim>\<open>download_filename\<close>, \<^verbatim>\<open>get_downloaded_filename\<close> returns absent until a
  filename is set. The row exists, so the method returns its \<^verbatim>\<open>download_filename\<close>
  column, the empty string, not \<^verbatim>\<open>None\<close>.
\<close>

theorem lookup_after_insert_not_absent:
  "fst (get_downloaded_filename ''/a'' ''a.jpg''
          (snd (insert_media (example_record 0) (started False False)))) = Inr (Some (SText []))
   \<and> fst (get_downloaded_filename ''/a'' ''a.jpg''
          (snd (insert_media (example_record 0) (started False False)))) \<noteq> Inr None"
  by (simp add: started_eq example_record_def get_downloaded_filename_def insert_media_def
      act_defs rows_of_def int64_ok_def insert_or_ignore_media_def)

text \<open>
  C1, amended: for a key with no row the lookup returns absent; once a record with an
  empty \<^verbatim>\<open>download_filename\<close> is inserted for that key it returns the empty string;
  after \<^verbatim>\<open>update_pre_download\<close> for that key it returns the filename that was set.
\<close>

theorem lookup_downloaded_filename_stages:
  assumes "conn s = Some Open" and "media (view s) = Some rows"
    and "media_key r \<notin> set (map media_key rows)" and "int64_ok (completed r)"
    and "download_filename r = []"
  shows "fst (get_downloaded_filename (url_path r) (original_filename r) s) = Inr None
       \<and> fst (get_downloaded_filename (url_path r) (original_filename r)
               (snd (insert_media r s))) = Inr (Some (SText []))
       \<and> fst (get_downloaded_filename (url_path r) (original_filename r)
               (snd (update_pre_download dp fn (url_path r) (original_filename r)
                 (snd (insert_media r s))))) = Inr (Some (SText fn))"
proof -
  let ?P = "\<lambda>x. url_path x = url_path r \<and> original_filename x = original_filename r"
  let ?s1 = "snd (insert_media r s)"
  let ?s2 = "snd (update_pre_download dp fn (url_path r) (original_filename r) ?s1)"
  have fresh: "\<forall>x \<in> set rows. \<not> ?P x"
    using assms(3) by (force simp: media_key_def image_iff)
  have none: "find ?P rows = None"
    using fresh by (simp add: find_None_iff)
  have rows1: "insert_or_ignore_media r rows = rows @ [r]"
    using assms(3) by (simp add: insert_or_ignore_media_def)
  have v1: "media (view ?s1) = Some (rows @ [r])" and c1: "conn ?s1 = Some Open"
    using insert_media_open [OF assms(1,2,4)] rows1 by simp_all
  have f1: "find ?P (rows @ [r]) = Some r"
    using find_append_fresh [OF fresh, of "[r]"] by simp
  have v2: "media (view ?s2) =
              Some (map (set_download dp fn (url_path r) (original_filename r)) (rows @ [r]))"
    and c2: "conn ?s2 = Some Open"
    using update_pre_download_open [OF c1 v1] by simp_all
  have f2: "find ?P (map (set_download dp fn (url_path r) (original_filename r)) (rows @ [r])) =
              Some (r\<lparr>download_path := dp, download_filename := fn\<rparr>)"
    using f1
    by (subst find_map_row) (simp_all add: set_download_def)
  show ?thesis
    using get_downloaded_filename_open [OF assms(1,2)] none
      get_downloaded_filename_open [OF c1 v1] f1 assms(5)
      get_downloaded_filename_open [OF c2 v2] f2
    by simp
qed

theorem lookup_downloaded_filename_stages_witness:
  "fst (get_downloaded_filename ''/a'' ''a.jpg'' (started False False)) = Inr None
   \<and> fst (get_downloaded_filename ''/a'' ''a.jpg''
          (snd (insert_media (example_record 0) (started False False)))) = Inr (Some (SText []))
   \<and> fst (get_downloaded_filename ''/a'' ''a.jpg''
          (snd (update_pre_download ''/downloads'' ''a_1.jpg'' ''/a'' ''a.jpg''
            (snd (insert_media (example_record 0) (started False False)))))) =
       Inr (Some (SText ''a_1.jpg''))"
  using lookup_downloaded_filename_stages
    [of "started False False" "[]" "example_record 0" "''/downloads''" "''a_1.jpg''"]
  by (simp add: started_eq example_record_def int64_ok_def)

subsection \<open>The ignore-history flag\<close>

lemma scenario_done_eq:
  "scenario_done ih =
     \<lparr>ignore_history = ih, ignore_cache = False, download_history = ''history.sqlite'',
      conn = Some Open, old_history = False,
      view = \<lparr>downloads = None,
               media = Some [(example_record 1)\<lparr>download_path := ''/downloads'',
                                               download_filename := ''a_1.jpg''\<rparr>],
               downloads_temp = Some [], coomeno = Some [], t_table = None\<rparr>,
      durable = \<lparr>downloads = None,
               media = Some [(example_record 1)\<lparr>download_path := ''/downloads'',
                                               download_filename := ''a_1.jpg''\<rparr>],
               downloads_temp = Some [], coomeno = Some [], t_table = None\<rparr>,
      results = [],
      executed = [SelectSchemaDownloads, PragmaFreelistCount, CreateT,
                  InsertZeroblob 52428800, DropT, CreateMedia, CreateDownloadsTemp,
                  DeleteDownloadsTemp, CreateCoomeno, InsertMedia (example_record 0),
                  UpdatePreDownload ''/downloads'' ''a_1.jpg'' ''/a'' ''a.jpg'',
                  UpdateCompleted ''/a'' ''a.jpg''],
      debug_log = [], freelist_count = 0, io_fail = False\<rparr>"
  by (simp add: scenario_done_def started_eq example_record_def insert_media_def
      update_pre_download_def mark_complete_def act_defs int64_ok_def
      insert_or_ignore_media_def set_download_def set_completed_def)

text \<open>
  C2, as stated: with \<^verbatim>\<open>ignore_history\<close> set, every completion lookup and the
  filename lookup report not-found without querying. \<^verbatim>\<open>get_downloaded_filename\<close>
  never reads the flag: on the completed scenario key it runs its \<^verbatim>\<open>SELECT\<close> and
  returns the stored filename.
\<close>

theorem ignore_history_filename_lookup_found:
  "ignore_history (scenario_done True)
   \<and> fst (get_downloaded_filename ''/a'' ''a.jpg'' (scenario_done True)) =
       Inr (Some (SText ''a_1.jpg''))
   \<and> executed (snd (get_downloaded_filename ''/a'' ''a.jpg'' (scenario_done True))) =
       executed (scenario_done True) @ [SelectDownloadFilename ''/a'' ''a.jpg'']"
  by (simp add: scenario_done_eq example_record_def get_downloaded_filename_def act_defs
      rows_of_def)

text \<open>
  C2, amended: with \<^verbatim>\<open>ignore_history\<close> set, \<^verbatim>\<open>check_complete_singular\<close> and
  \<^verbatim>\<open>sql_check_old_existing\<close> return \<^verbatim>\<open>False\<close> for every key and leave the helper
  as it was, so no statement is executed; \<^verbatim>\<open>get_downloaded_filename\<close> behaves as it
  does with the flag clear.
\<close>

theorem ignore_history_lookups:
  assumes "ignore_history s"
  shows "check_complete_singular dm u s = (Inr False, s)
       \<and> sql_check_old_existing u s = (Inr (Some False), s)
       \<and> fst (get_downloaded_filename u f s) =
           fst (get_downloaded_filename u f (s\<lparr>ignore_history := False\<rparr>))
       \<and> executed (snd (get_downloaded_filename u f s)) =
           executed (snd (get_downloaded_filename u f (s\<lparr>ignore_history := False\<rparr>)))"
proof -
  have a: "check_complete_singular dm u s = (Inr False, s)"
    using assms by (simp add: check_complete_singular_def ret_def)
  have b: "sql_check_old_existing u s = (Inr (Some False), s)"
    using assms by (simp add: sql_check_old_existing_def ret_def)
  have c: "fst (get_downloaded_filename u f s) =
             fst (get_downloaded_filename u f (s\<lparr>ignore_history := False\<rparr>))"
    by (simp add: get_downloaded_filename_def act_defs
        split: option.splits conn_status.splits sum.splits list.splits)
  have d: "executed (snd (get_downloaded_filename u f s)) =
             executed (snd (get_downloaded_filename u f (s\<lparr>ignore_history := False\<rparr>)))"
    by (simp add: get_downloaded_filename_def act_defs
        split: option.splits conn_status.splits sum.splits list.splits)
  show ?thesis using a b c d by simp
qed

theorem ignore_history_lookups_witness:
  "check_complete_singular ''example'' ''/a'' (scenario_done True) =
     (Inr False, scenario_done True)
   \<and> sql_check_old_existing ''/a'' (scenario_done True) =
       (Inr (Some False), scenario_done True)"
  using ignore_history_lookups [of "scenario_done True" "''example''" "''/a''" "''a.jpg''"]
  by (simp add: scenario_done_eq)

subsection \<open>Completion lookup\<close>

text \<open>
  C4, as stated: \<^verbatim>\<open>check_complete_singular\<close> returns true only for a row whose
  \<^verbatim>\<open>completed\<close> equals 1, for every value \<^verbatim>\<open>insert_media\<close> can store. The method
  returns false for 0 and true for anything else: a row stored with \<^verbatim>\<open>completed = 2\<close>
  is reported complete.
\<close>

theorem is_complete_true_for_two:
  "fst (check_complete_singular ''example'' ''/a''
          (snd (insert_media (example_record 2) (started False False)))) = Inr True
   \<and> media (view (snd (insert_media (example_record 2) (started False False)))) =
       Some [example_record 2]
   \<and> completed (example_record 2) \<noteq> 1"
  by (simp add: started_eq example_record_def check_complete_singular_def insert_media_def
      act_defs rows_of_def int64_ok_def insert_or_ignore_media_def)

text \<open>
  C4, amended: with \<^verbatim>\<open>ignore_history\<close> clear, \<^verbatim>\<open>check_complete_singular\<close> answers
  from the row it fetches, which is the row matching the domain and the URL path that
  comes first in the primary key, that is with the least \<^verbatim>\<open>original_filename\<close>: the
  answer is true exactly when that row's \<^verbatim>\<open>completed\<close> is different from 0. So a true
  answer means that a matching row with a non-zero flag exists, and the answer is false
  when no row matches and when every matching row is pending.
\<close>

theorem is_complete_nonzero:
  assumes "\<not> ignore_history s" and "conn s = Some Open" and "media (view s) = Some rows"
  shows "(distinct (map media_key rows) \<longrightarrow>
            (\<forall>r \<in> set rows.
               domain r = dm \<and> url_path r = u
               \<and> (\<forall>x \<in> set rows. domain x = dm \<and> url_path x = u \<longrightarrow>
                      original_filename r \<le> original_filename x) \<longrightarrow>
               fst (check_complete_singular dm u s) = Inr (completed r \<noteq> 0)))
       \<and> (fst (check_complete_singular dm u s) = Inr True \<longrightarrow>
            (\<exists>r \<in> set rows. domain r = dm \<and> url_path r = u \<and> completed r \<noteq> 0))
       \<and> ((\<forall>r \<in> set rows. domain r = dm \<and> url_path r = u \<longrightarrow> completed r = 0) \<longrightarrow>
            fst (check_complete_singular dm u s) = Inr False)"
proof -
  let ?P = "\<lambda>r. domain r = dm \<and> url_path r = u"
  let ?L = "sort_key original_filename (filter ?P rows)"
  note eq = check_complete_singular_open [OF assms, of dm u]
  have setL: "set ?L = {r \<in> set rows. ?P r}"
    by simp
  have first: "distinct (map media_key rows) \<longrightarrow>
            (\<forall>r \<in> set rows.
               domain r = dm \<and> url_path r = u
               \<and> (\<forall>x \<in> set rows. domain x = dm \<and> url_path x = u \<longrightarrow>
                      original_filename r \<le> original_filename x) \<longrightarrow>
               fst (check_complete_singular dm u s) = Inr (completed r \<noteq> 0))"
  proof (intro impI ballI)
    fix r
    assume dist: "distinct (map media_key rows)" and r: "r \<in> set rows"
      and least: "domain r = dm \<and> url_path r = u
               \<and> (\<forall>x \<in> set rows. domain x = dm \<and> url_path x = u \<longrightarrow>
                      original_filename r \<le> original_filename x)"
    have rin: "r \<in> set (filter ?P rows)"
      using r least by simp
    then obtain y ys where L: "?L = y # ys"
      using setL by (cases ?L) auto
    have yin: "y \<in> set rows" and yP: "?P y"
      using setL L by auto
    have "original_filename y \<le> original_filename r"
      using first_row_least [OF L rin] .
    moreover have "original_filename r \<le> original_filename y"
      using least yin yP by blast
    ultimately have "original_filename y = original_filename r"
      by simp
    then have "media_key y = media_key r"
      using yP least by (simp add: media_key_def)
    then have "y = r"
      using distinct_key_eq [OF dist yin r] by simp
    then show "fst (check_complete_singular dm u s) = Inr (completed r \<noteq> 0)"
      using eq L by simp
  qed
  have true: "fst (check_complete_singular dm u s) = Inr True \<longrightarrow>
            (\<exists>r \<in> set rows. domain r = dm \<and> url_path r = u \<and> completed r \<noteq> 0)"
  proof
    assume t: "fst (check_complete_singular dm u s) = Inr True"
    then obtain y ys where L: "?L = y # ys" and y: "completed y \<noteq> 0"
      using eq by (cases ?L) auto
    have "y \<in> set rows" and "?P y"
      using setL L by auto
    then show "\<exists>r \<in> set rows. domain r = dm \<and> url_path r = u \<and> completed r \<noteq> 0"
      using y by blast
  qed
  have false: "(\<forall>r \<in> set rows. domain r = dm \<and> url_path r = u \<longrightarrow> completed r = 0) \<longrightarrow>
            fst (check_complete_singular dm u s) = Inr False"
  proof
    assume pending: "\<forall>r \<in> set rows. domain r = dm \<and> url_path r = u \<longrightarrow> completed r = 0"
    show "fst (check_complete_singular dm u s) = Inr False"
    proof (cases ?L)
      case Nil
      then show ?thesis using eq by simp
    next
      case (Cons y ys)
      then have "y \<in> set rows" and "?P y"
        using setL by auto
      then have "completed y = 0"
        using pending by blast
      then show ?thesis using eq Cons by simp
    qed
  qed
  show ?thesis
    using first true false by (intro conjI)
qed

text \<open>
  Two files under one URL path: \<^verbatim>\<open>b.jpg\<close> is inserted first and stays pending,
  \<^verbatim>\<open>a.jpg\<close> is inserted second and marked complete. The lookup fetches the row of
  \<^verbatim>\<open>a.jpg\<close> and answers true; for a URL path without rows it answers false.
\<close>

theorem is_complete_nonzero_witness:
  "fst (check_complete_singular ''example'' ''/a''
     (snd (mark_complete ''/a'' ''a.jpg''
       (snd (insert_media (example_record 0)
         (snd (insert_media ((example_record 0)\<lparr>original_filename := ''b.jpg''\<rparr>)
           (started False False)))))))) = Inr True
   \<and> fst (check_complete_singular ''example'' ''/b''
     (snd (mark_complete ''/a'' ''a.jpg''
       (snd (insert_media (example_record 0)
         (snd (insert_media ((example_record 0)\<lparr>original_filename := ''b.jpg''\<rparr>)
           (started False False)))))))) = Inr False"
proof -
  let ?s = "snd (mark_complete ''/a'' ''a.jpg''
       (snd (insert_media (example_record 0)
         (snd (insert_media ((example_record 0)\<lparr>original_filename := ''b.jpg''\<rparr>)
           (started False False))))))"
  let ?rows = "[(example_record 0)\<lparr>original_filename := ''b.jpg''\<rparr>, example_record 1]"
  have s: "\<not> ignore_history ?s" "conn ?s = Some Open" "media (view ?s) = Some ?rows"
    by (simp_all add: started_eq example_record_def insert_media_def mark_complete_def
        act_defs int64_ok_def insert_or_ignore_media_def set_completed_def media_key_def)
  have a: "fst (check_complete_singular ''example'' ''/a'' ?s) =
             Inr (completed (example_record 1) \<noteq> 0)"
    using is_complete_nonzero [OF s, of "''example''" "''/a''"]
    by (simp add: example_record_def media_key_def)
  have b: "fst (check_complete_singular ''example'' ''/b'' ?s) = Inr False"
    using is_complete_nonzero [OF s, of "''example''" "''/b''"]
    by (simp add: example_record_def)
  show ?thesis
    using a b by (simp add: example_record_def)
qed

subsection \<open>Inserting a record twice\<close>

lemma filter_key_unique:
  assumes "distinct (map g xs)" and "x \<in> set xs"
  shows "filter (\<lambda>y. g y = g x) xs = [x]"
  using assms
proof (induction xs)
  case Nil
  then show ?case by simp
next
  case (Cons a xs)
  show ?case
  proof (cases "a = x")
    case True
    have "g x \<notin> g ` set xs"
      using Cons.prems(1) True by simp
    then have "\<forall>y \<in> set xs. g y \<noteq> g x"
      by (metis image_eqI)
    then have "filter (\<lambda>y. g y = g x) xs = []"
      by (simp add: filter_empty_conv)
    then show ?thesis using True by simp
  next
    case False
    then have mem: "x \<in> set xs" using Cons.prems(2) by simp
    have "g a \<notin> g ` set xs"
      using Cons.prems(1) by simp
    then have "g a \<noteq> g x"
      using mem by (metis image_eqI)
    then show ?thesis using Cons mem by simp
  qed
qed

lemma insert_media_ready:
  assumes "conn s = Some Open" and "\<not> io_fail s" and "media (view s) = Some rows"
    and "int64_ok (completed r)"
  shows "insert_media r s =
           (Inr (), s\<lparr>view := (view s)\<lparr>media := Some (insert_or_ignore_media r rows)\<rparr>,
                       results := [], executed := executed s @ [InsertMedia r],
                       durable := (view s)\<lparr>media := Some (insert_or_ignore_media r rows)\<rparr>\<rparr>)"
  using assms by (simp add: insert_media_def act_defs)

lemma insert_or_ignore_media_distinct:
  "distinct (map media_key rows) \<Longrightarrow> distinct (map media_key (insert_or_ignore_media r rows))"
  by (simp add: insert_or_ignore_media_def)

lemma insert_or_ignore_media_has_key:
  "media_key r \<in> set (map media_key (insert_or_ignore_media r rows))"
  by (simp add: insert_or_ignore_media_def)

lemma insert_or_ignore_media_again:
  "media_key r2 = media_key r1 \<Longrightarrow>
     insert_or_ignore_media r2 (insert_or_ignore_media r1 rows) = insert_or_ignore_media r1 rows"
  using insert_or_ignore_media_has_key [of r1 rows]
  by (simp add: insert_or_ignore_media_def)

text \<open>
  C5. Two records with the same \<^verbatim>\<open>(url_path, original_filename)\<close>, both with a
  \<^verbatim>\<open>completed\<close> value that fits SQLite's 64-bit integer: on an open connection to a
  database whose \<^verbatim>\<open>media\<close> table respects its primary key, both inserts return
  without an exception, the second changes neither what the connection sees nor what is
  committed, the table then holds exactly one row with that key, and when the key was
  new that row is the first record, whatever the second record's other fields are.
\<close>

theorem insert_media_idempotent:
  assumes "conn s = Some Open" and "\<not> io_fail s" and "media (view s) = Some rows"
    and "distinct (map media_key rows)" and "media_key r2 = media_key r1"
    and "int64_ok (completed r1)" and "int64_ok (completed r2)"
  shows "fst (insert_media r1 s) = Inr ()
       \<and> fst (insert_media r2 (snd (insert_media r1 s))) = Inr ()
       \<and> view (snd (insert_media r2 (snd (insert_media r1 s)))) = view (snd (insert_media r1 s))
       \<and> durable (snd (insert_media r2 (snd (insert_media r1 s)))) =
           durable (snd (insert_media r1 s))
       \<and> media (view (snd (insert_media r2 (snd (insert_media r1 s))))) =
           Some (insert_or_ignore_media r1 rows)
       \<and> length (filter (\<lambda>r. media_key r = media_key r1) (insert_or_ignore_media r1 rows)) = 1
       \<and> (media_key r1 \<notin> set (map media_key rows) \<longrightarrow>
            filter (\<lambda>r. media_key r = media_key r1) (insert_or_ignore_media r1 rows) = [r1])"
proof -
  let ?rows1 = "insert_or_ignore_media r1 rows"
  define s1 where "s1 = snd (insert_media r1 s)"
  define s2 where "s2 = snd (insert_media r2 s1)"
  note first = insert_media_ready [OF assms(1,2,3,6)]
  have ok1: "fst (insert_media r1 s) = Inr ()"
    using first by simp
  have c1: "conn s1 = Some Open" and i1: "\<not> io_fail s1"
    and m1: "media (view s1) = Some ?rows1" and vd1: "durable s1 = view s1"
    using first assms(1,2) by (simp_all add: s1_def)
  note second = insert_media_ready [OF c1 i1 m1 assms(7)]
  have again: "insert_or_ignore_media r2 ?rows1 = ?rows1"
    using insert_or_ignore_media_again [OF assms(5)] .
  have ok2: "fst (insert_media r2 s1) = Inr ()"
    using second by simp
  have v2: "view s2 = view s1"
    using second again m1 by (simp add: s2_def)
  have d2: "durable s2 = durable s1"
    using second again v2 vd1 by (simp add: s2_def)
  have m2: "media (view s2) = Some ?rows1"
    using v2 m1 by simp
  have dist: "distinct (map media_key ?rows1)"
    using insert_or_ignore_media_distinct [OF assms(4)] .
  obtain x where x: "x \<in> set ?rows1" "media_key x = media_key r1"
    using insert_or_ignore_media_has_key [of r1 rows] by auto
  have one: "filter (\<lambda>r. media_key r = media_key r1) ?rows1 = [x]"
    using filter_key_unique [OF dist x(1)] x(2) by simp
  have new: "media_key r1 \<notin> set (map media_key rows) \<longrightarrow>
               filter (\<lambda>r. media_key r = media_key r1) ?rows1 = [r1]"
  proof
    assume fresh: "media_key r1 \<notin> set (map media_key rows)"
    then have "r1 \<in> set ?rows1"
      by (simp add: insert_or_ignore_media_def)
    then show "filter (\<lambda>r. media_key r = media_key r1) ?rows1 = [r1]"
      using filter_key_unique [OF dist] by blast
  qed
  show ?thesis
    using ok1 ok2 v2 d2 m2 one new unfolding s1_def s2_def by simp
qed

theorem insert_media_idempotent_witness:
  "fst (insert_media (example_record 0) (started False False)) = Inr ()
   \<and> fst (insert_media ((example_record 1)\<lparr>album_path := ''other''\<rparr>)
            (snd (insert_media (example_record 0) (started False False)))) = Inr ()
   \<and> media (view (snd (insert_media ((example_record 1)\<lparr>album_path := ''other''\<rparr>)
            (snd (insert_media (example_record 0) (started False False)))))) =
       Some [example_record 0]"
  using insert_media_idempotent [of "started False False" "[]"
      "(example_record 1)\<lparr>album_path := ''other''\<rparr>" "example_record 0"]
  by (simp add: started_eq example_record_def int64_ok_def media_key_def
      insert_or_ignore_media_def insert_media_def act_defs)

subsection \<open>The completed flag never goes back\<close>





lemma set_completed_twice [simp]:
  "set_completed u f (set_completed u f r) = set_completed u f r"
  by (simp add: set_completed_def)











































subsection \<open>The content cache\<close>

lemma get_blob_open:
  assumes "\<not> ignore_cache s" and "conn s = Some Open" and "coomeno (view s) = Some rows"
  shows "fst (get_blob u s) = Inr (map_option (\<lambda>r. SBlob (snd r)) (find (\<lambda>r. fst r = u) rows))"
proof (cases "filter (\<lambda>r. fst r = u) rows")
  case Nil
  then show ?thesis
    using assms find_filter_Nil [OF Nil]
    by (simp add: get_blob_def act_defs rows_of_def)
next
  case (Cons y ys)
  then show ?thesis
    using assms find_filter_Cons [OF Cons]
    by (simp add: get_blob_def act_defs rows_of_def)
qed

lemma insert_blob_open:
  assumes "conn s = Some Open" and "coomeno (view s) = Some rows"
  shows "conn (snd (insert_blob p u s)) = Some Open"
    and "coomeno (view (snd (insert_blob p u s))) = Some (insert_or_ignore_coomeno (u, p) rows)"
    and "ignore_cache (snd (insert_blob p u s)) = ignore_cache s"
  using assms by (simp_all add: insert_blob_def act_defs)

lemma find_insert_or_ignore_coomeno:
  "find (\<lambda>r. fst r = u) (insert_or_ignore_coomeno (u, p) rows) =
     (case find (\<lambda>r. fst r = u) rows of None \<Rightarrow> Some (u, p) | Some r \<Rightarrow> Some r)"
proof (cases "find (\<lambda>r. fst r = u) rows")
  case None
  then have fresh: "\<forall>r \<in> set rows. \<not> fst r = u"
    unfolding find_None_iff by blast
  then have "u \<notin> set (map fst rows)"
    by auto
  then show ?thesis
    using None find_append_fresh [OF fresh, of "[(u, p)]"]
    by (simp add: insert_or_ignore_coomeno_def)
next
  case (Some r)
  then have "r \<in> set rows" and "fst r = u"
    by (auto simp: find_Some_iff)
  then have "u \<in> set (map fst rows)"
    by force
  then show ?thesis
    using Some by (simp add: insert_or_ignore_coomeno_def)
qed

text \<open>
  C7. With \<^verbatim>\<open>ignore_cache\<close> clear, on an open connection with the cache table
  present: when the URL path is not cached yet, \<^verbatim>\<open>insert_blob\<close> followed by
  \<^verbatim>\<open>get_blob\<close> returns the payload, and \<^verbatim>\<open>get_blob\<close> still returns it after a
  second \<^verbatim>\<open>insert_blob\<close> of another payload for the same path; in general, whatever
  payload \<^verbatim>\<open>get_blob\<close> returns for a path, it returns the same one after any further
  \<^verbatim>\<open>insert_blob\<close> for that path.
\<close>

theorem cache_write_once:
  assumes "\<not> ignore_cache s" and "conn s = Some Open" and "coomeno (view s) = Some rows"
  shows "(u \<notin> set (map fst rows) \<longrightarrow>
            fst (get_blob u (snd (insert_blob p u s))) = Inr (Some (SBlob p))
          \<and> fst (get_blob u (snd (insert_blob p' u (snd (insert_blob p u s))))) =
              Inr (Some (SBlob p)))
       \<and> (fst (get_blob u s) = Inr (Some v) \<longrightarrow>
            fst (get_blob u (snd (insert_blob p' u s))) = Inr (Some v))"
proof -
  let ?P = "\<lambda>r. fst r = u"
  let ?s1 = "snd (insert_blob p u s)"
  let ?s2 = "snd (insert_blob p' u ?s1)"
  let ?t = "snd (insert_blob p' u s)"
  let ?rows1 = "insert_or_ignore_coomeno (u, p) rows"
  note i1 = insert_blob_open [OF assms(2,3), of p u]
  note i2 = insert_blob_open [OF i1(1) i1(2), of p' u]
  note it = insert_blob_open [OF assms(2,3), of p' u]
  have g1: "fst (get_blob u ?s1) = Inr (map_option (\<lambda>r. SBlob (snd r)) (find ?P ?rows1))"
    using get_blob_open [OF _ i1(1) i1(2)] i1(3) assms(1) by simp
  have g2: "fst (get_blob u ?s2) =
              Inr (map_option (\<lambda>r. SBlob (snd r))
                     (find ?P (insert_or_ignore_coomeno (u, p') ?rows1)))"
    using get_blob_open [OF _ i2(1) i2(2)] i2(3) i1(3) assms(1) by simp
  have gt: "fst (get_blob u ?t) =
              Inr (map_option (\<lambda>r. SBlob (snd r))
                     (find ?P (insert_or_ignore_coomeno (u, p') rows)))"
    using get_blob_open [OF _ it(1) it(2)] it(3) assms(1) by simp
  have g0: "fst (get_blob u s) = Inr (map_option (\<lambda>r. SBlob (snd r)) (find ?P rows))"
    using get_blob_open [OF assms] .
  have fresh: "u \<notin> set (map fst rows) \<Longrightarrow> find ?P rows = None"
    unfolding find_None_iff by force
  show ?thesis
    using g0 g1 g2 gt fresh
    by (auto simp: find_insert_or_ignore_coomeno split: option.splits)
qed

theorem cache_write_once_witness:
  "fst (get_blob ''/post1'' (snd (insert_blob ''<html>'' ''/post1'' (started False False)))) =
     Inr (Some (SBlob ''<html>''))
   \<and> fst (get_blob ''/post1''
        (snd (insert_blob ''<different>'' ''/post1''
          (snd (insert_blob ''<html>'' ''/post1'' (started False False)))))) =
       Inr (Some (SBlob ''<html>''))"
  using cache_write_once [of "started False False" "[]" "''/post1''" "''<html>''"
      "''<different>''"]
  by (simp add: started_eq)

subsection \<open>Pre-allocation\<close>

text \<open>
  What \<^verbatim>\<open>pre_allocate\<close> executes and what it leaves in the schema, on an open
  connection whose commits succeed. At a free-page count of at most 1024 it runs the
  reservation: it creates the table \<^verbatim>\<open>t\<close> if absent, inserts one zero blob of
  \<^verbatim>\<open>50*1024*1024\<close> bytes and drops the table, so that neither the connection nor the
  committed file has a table \<^verbatim>\<open>t\<close> afterwards and every other table is as before.
  Above 1024 it executes the free-page query only and changes nothing. How many bytes
  the file on disk gains by the reservation is decided by SQLite's pager (the page size,
  the free pages it uses again before it extends the file) and is not part of the model.
\<close>

lemma pre_allocate_statements:
  assumes "conn s = Some Open" and "\<not> io_fail s"
  shows "(freelist_count s \<le> 1024 \<longrightarrow>
            fst (pre_allocate s) = Inr ()
          \<and> executed (snd (pre_allocate s)) =
              executed s @ [PragmaFreelistCount, CreateT, InsertZeroblob (50 * 1024 * 1024), DropT]
          \<and> view (snd (pre_allocate s)) = (view s)\<lparr>t_table := None\<rparr>
          \<and> durable (snd (pre_allocate s)) = (view s)\<lparr>t_table := None\<rparr>)
       \<and> (1024 < freelist_count s \<longrightarrow>
            fst (pre_allocate s) = Inr ()
          \<and> executed (snd (pre_allocate s)) = executed s @ [PragmaFreelistCount]
          \<and> view (snd (pre_allocate s)) = view s
          \<and> durable (snd (pre_allocate s)) = durable s)"
proof (cases "freelist_count s \<le> 1024")
  case True
  then show ?thesis
    using assms
    by (cases "t_table (view s)") (simp_all add: pre_allocate_def act_defs)
next
  case False
  then show ?thesis
    using assms by (simp add: pre_allocate_def act_defs)
qed

subsection \<open>The exit handler\<close>

text \<open>
  C9. \<^verbatim>\<open>exit_handler\<close> returns normally from every state of the helper. On an
  open connection whose commit succeeds it commits what the connection sees and closes
  the connection with a success message. In every other state (never connected, already
  closed, commit failing) the exception is caught and logged and nothing else changes.
  A second call never raises either, and unless the first call failed on an open
  connection and the engine has recovered since, it leaves the connection, its view and
  the committed file untouched.
\<close>

theorem exit_handler_never_raises:
  "fst (exit_handler s) = Inr ()
   \<and> (conn s = Some Open \<and> \<not> io_fail s \<longrightarrow>
        durable (snd (exit_handler s)) = view s
      \<and> conn (snd (exit_handler s)) = Some Closed
      \<and> debug_log (snd (exit_handler s)) = debug_log s @ [ClosedSuccessfully])
   \<and> (conn s = None \<longrightarrow> snd (exit_handler s) =
        s\<lparr>debug_log := debug_log s @ [FailedToClose AttributeError]\<rparr>)
   \<and> (conn s = Some Closed \<longrightarrow> snd (exit_handler s) =
        s\<lparr>debug_log := debug_log s @ [FailedToClose ProgrammingError]\<rparr>)
   \<and> (conn s = Some Open \<and> io_fail s \<longrightarrow> snd (exit_handler s) =
        s\<lparr>debug_log := debug_log s @ [FailedToClose OperationalError]\<rparr>)
   \<and> fst (exit_handler ((snd (exit_handler s))\<lparr>io_fail := b\<rparr>)) = Inr ()
   \<and> (conn s \<noteq> Some Open \<or> \<not> io_fail s \<or> b \<longrightarrow>
        conn (snd (exit_handler ((snd (exit_handler s))\<lparr>io_fail := b\<rparr>))) =
          conn (snd (exit_handler s))
      \<and> view (snd (exit_handler ((snd (exit_handler s))\<lparr>io_fail := b\<rparr>))) =
          view (snd (exit_handler s))
      \<and> durable (snd (exit_handler ((snd (exit_handler s))\<lparr>io_fail := b\<rparr>))) =
          durable (snd (exit_handler s)))"
proof -
  have never: "\<And>x. fst (exit_handler x) = Inr ()"
    by (simp add: exit_handler_def is_Exception_def bnd_def conn_commit_def conn_close_def
        split: option.splits conn_status.splits)
  consider (none) "conn s = None" | (closed) "conn s = Some Closed"
    | (fail) "conn s = Some Open" "io_fail s" | (ok) "conn s = Some Open" "\<not> io_fail s"
    by (cases "conn s") (auto intro: conn_status.exhaust)
  then show ?thesis
  proof cases
    case none
    then show ?thesis
      using never
      by (simp add: exit_handler_def is_Exception_def bnd_def conn_commit_def conn_close_def)
  next
    case closed
    then show ?thesis
      using never
      by (simp add: exit_handler_def is_Exception_def bnd_def conn_commit_def conn_close_def)
  next
    case fail
    then show ?thesis
      using never
      by (simp add: exit_handler_def is_Exception_def bnd_def conn_commit_def conn_close_def)
  next
    case ok
    then show ?thesis
      using never
      by (simp add: exit_handler_def is_Exception_def bnd_def conn_commit_def conn_close_def)
  qed
qed

theorem exit_handler_never_raises_witness:
  "fst (exit_handler (scenario_done False)) = Inr ()
   \<and> conn (snd (exit_handler (scenario_done False))) = Some Closed
   \<and> debug_log (snd (exit_handler (scenario_done False))) = [ClosedSuccessfully]
   \<and> fst (exit_handler (snd (exit_handler (scenario_done False)))) = Inr ()
   \<and> conn (snd (exit_handler (snd (exit_handler (scenario_done False))))) = Some Closed
   \<and> debug_log (snd (exit_handler (init_SQLHelper False False ''history.sqlite''
         empty_database 0))) = [FailedToClose AttributeError]"
proof -
  have same: "(snd (exit_handler (scenario_done False)))\<lparr>io_fail := False\<rparr> =
                snd (exit_handler (scenario_done False))"
    by (simp add: scenario_done_eq exit_handler_def is_Exception_def bnd_def conn_commit_def
        conn_close_def)
  show ?thesis
    using exit_handler_never_raises [of "scenario_done False" False]
      exit_handler_never_raises
        [of "init_SQLHelper False False ''history.sqlite'' empty_database 0" False]
    unfolding same
    by (simp add: scenario_done_eq init_SQLHelper_def)
qed

subsection \<open>Album paths of the batch inserts\<close>














end
